theory Spec2Isabelle
  imports Main
begin

unbundle bit_operations_syntax

section \<open>Python values, exceptions and sequences\<close>

text \<open>
  The driver is Python: integers are unbounded (\<open>int\<close>), the bitwise operators work on
  the two's complement reading (\<open>AND\<close>, \<open>OR\<close>, \<open>NOT\<close>, \<open>push_bit\<close>, \<open>drop_bit\<close> on
  \<open>int\<close>). A raised exception is the \<open>Inl\<close> branch of a sum; a call that raises ends
  there, and the state it leaves behind is not tracked.
\<close>

datatype exc_arg = Str string | Num int | Obj nat

datatype error =
    ValueError "exc_arg list"
  | IndexError
  | TypeError
  | AttributeError
  | OSError

datatype pyval = PyNone | PyBool bool | PyInt int

definition seq :: "error + 'a \<Rightarrow> ('a \<Rightarrow> error + 'b) \<Rightarrow> error + 'b" where
  "seq r f = (case r of Inl e \<Rightarrow> Inl e | Inr v \<Rightarrow> f v)"

text \<open>Subscription \<open>xs[i]\<close> of a tuple, list or bytearray: a negative index counts from
  the end, anything outside \<open>-len .. len - 1\<close> raises IndexError.\<close>

definition getitem :: "'a list \<Rightarrow> int \<Rightarrow> error + 'a" where
  "getitem xs i =
     (if 0 \<le> i \<and> i < int (length xs) then Inr (xs ! nat i)
      else if i < 0 \<and> - int (length xs) \<le> i then Inr (xs ! nat (int (length xs) + i))
      else Inl IndexError)"

text \<open>Item assignment \<open>b[i] = v\<close> on a bytearray. An element of a bytearray is an
  integer in \<open>range(0, 256)\<close>; Python refuses any other value with
  \<open>ValueError: byte must be in range(0, 256)\<close>. The refused value is kept as a second
  argument of the exception, for reference.\<close>

definition bytearray_setitem :: "int list \<Rightarrow> int \<Rightarrow> int \<Rightarrow> error + int list" where
  "bytearray_setitem b i v =
     (if v < 0 \<or> 255 < v then Inl (ValueError [Str ''byte must be in range(0, 256)'', Num v])
      else if 0 \<le> i \<and> i < int (length b) then Inr (b[nat i := v])
      else if i < 0 \<and> - int (length b) \<le> i then Inr (b[nat (int (length b) + i) := v])
      else Inl IndexError)"

text \<open>The augmented assignments \<open>b[i] |= m\<close> and \<open>b[i] &= m\<close>: read the element,
  combine, store the result back.\<close>

definition ior_item :: "int list \<Rightarrow> int \<Rightarrow> int \<Rightarrow> error + int list" where
  "ior_item b i m = seq (getitem b i) (\<lambda>old. bytearray_setitem b i (old OR m))"

definition iand_item :: "int list \<Rightarrow> int \<Rightarrow> int \<Rightarrow> error + int list" where
  "iand_item b i m = seq (getitem b i) (\<lambda>old. bytearray_setitem b i (old AND m))"

text \<open>Truth value testing, and the operators \<open>&\<close> and \<open>~\<close> on values that may be
  \<open>None\<close> (\<open>bool\<close> is a subtype of \<open>int\<close>).\<close>

fun truthy :: "pyval \<Rightarrow> bool" where
  "truthy PyNone = False"
| "truthy (PyBool b) = b"
| "truthy (PyInt n) = (n \<noteq> 0)"

fun py_invert :: "pyval \<Rightarrow> error + pyval" where
  "py_invert PyNone = Inl TypeError"
| "py_invert (PyBool b) = Inr (PyInt (NOT (if b then 1 else 0)))"
| "py_invert (PyInt n) = Inr (PyInt (NOT n))"

fun py_and :: "pyval \<Rightarrow> pyval \<Rightarrow> error + pyval" where
  "py_and (PyInt a) (PyInt b) = Inr (PyInt (a AND b))"
| "py_and (PyBool a) (PyBool b) = Inr (PyBool (a \<and> b))"
| "py_and (PyInt a) (PyBool b) = Inr (PyInt (a AND (if b then 1 else 0)))"
| "py_and (PyBool a) (PyInt b) = Inr (PyInt ((if a then 1 else 0) AND b))"
| "py_and _ _ = Inl TypeError"

section \<open>trellis.py: one board\<close>

subsection \<open>Command constants and lookup tables\<close>

definition HT16K33_OSCILATOR_ON :: int where "HT16K33_OSCILATOR_ON = 0x21"

definition HT16K33_BLINK_CMD :: int where "HT16K33_BLINK_CMD = 0x80"

definition HT16K33_BLINK_DISPLAYON :: int where "HT16K33_BLINK_DISPLAYON = 0x01"

definition HT16K33_CMD_BRIGHTNESS :: int where "HT16K33_CMD_BRIGHTNESS = 0xE0"

definition HT16K33_KEY_READ_CMD :: int where "HT16K33_KEY_READ_CMD = 0x40"

definition ledLUT :: "int list" where
  "ledLUT = [0x3A, 0x37, 0x35, 0x34,
             0x28, 0x29, 0x23, 0x24,
             0x16, 0x1B, 0x11, 0x10,
             0x0E, 0x0D, 0x0C, 0x02]"

definition buttonLUT :: "int list" where
  "buttonLUT = [0x07, 0x04, 0x02, 0x22,
                0x05, 0x06, 0x00, 0x01,
                0x03, 0x10, 0x30, 0x21,
                0x13, 0x12, 0x11, 0x31]"

subsection \<open>The board object\<close>

text \<open>
  The attributes of a \<open>TRELLIS\<close> instance. \<open>blink_rate_attr\<close> and \<open>brightness_attr\<close>
  are \<open>self._blink_rate\<close> and \<open>self._brightness\<close> (\<open>None\<close> until first set). The
  I2C device is the transport: \<open>i2c_written\<close> lists the buffers written to it so far,
  oldest first; what it delivers on a read is an argument of \<open>TRELLIS_read_buttons\<close>.
\<close>

record TRELLIS =
  temp :: "int list"
  led_buffer :: "int list"
  buttons_buffer :: "int list"
  last_buttons :: "int list"
  blink_rate_attr :: "int option"
  brightness_attr :: "int option"
  i2c_written :: "int list list"

text \<open>
  The attribute lookup \<open>board.__qualname__\<close> on an instance: \<open>__init__\<close> assigns the
  attributes above and no other, and the class body defines methods only.
  \<open>__qualname__\<close> is an attribute of the class object \<open>TRELLIS\<close> itself, which an
  instance does not inherit, so the lookup finds nothing (\<open>None\<close>) and Python raises
  AttributeError.
\<close>

definition TRELLIS_qualname :: "TRELLIS \<Rightarrow> string option" where
  "TRELLIS_qualname s = None"

type_synonym 'a board_op = "TRELLIS \<Rightarrow> error + ('a \<times> TRELLIS)"

definition write_cmd :: "int \<Rightarrow> TRELLIS \<Rightarrow> error + TRELLIS" where
  "write_cmd byte s =
     seq (bytearray_setitem (temp s) 0 byte) (\<lambda>t.
       Inr (s\<lparr>temp := t, i2c_written := i2c_written s @ [t]\<rparr>))"

text \<open>\<open>blink_rate(self, rate=None)\<close> and \<open>brightness(self, brightness)\<close>, on the bound
  parameter; the binding of a call's arguments is \<open>call_blink_rate\<close> and
  \<open>call_brightness\<close> below.\<close>

fun TRELLIS_blink_rate :: "pyval \<Rightarrow> pyval board_op" where
  "TRELLIS_blink_rate PyNone s =
     Inr ((case blink_rate_attr s of None \<Rightarrow> PyNone | Some r \<Rightarrow> PyInt r), s)"
| "TRELLIS_blink_rate v s =
     (let rate = (case v of PyInt n \<Rightarrow> n | PyBool b \<Rightarrow> (if b then 1 else 0) | PyNone \<Rightarrow> 0) AND 0x03;
          s1 = s\<lparr>blink_rate_attr := Some rate\<rparr>
      in seq (write_cmd (HT16K33_BLINK_CMD OR HT16K33_BLINK_DISPLAYON OR push_bit 1 rate) s1)
           (\<lambda>s2. Inr (PyNone, s2)))"

fun TRELLIS_brightness :: "pyval \<Rightarrow> pyval board_op" where
  "TRELLIS_brightness PyNone s =
     Inr ((case brightness_attr s of None \<Rightarrow> PyNone | Some r \<Rightarrow> PyInt r), s)"
| "TRELLIS_brightness v s =
     (let brightness = (case v of PyInt n \<Rightarrow> n | PyBool b \<Rightarrow> (if b then 1 else 0) | PyNone \<Rightarrow> 0) AND 0x0F;
          s1 = s\<lparr>brightness_attr := Some brightness\<rparr>
      in seq (write_cmd (HT16K33_CMD_BRIGHTNESS OR brightness) s1)
           (\<lambda>s2. Inr (PyNone, s2)))"

text \<open>The call \<open>board.blink_rate(*args)\<close>: \<open>rate\<close> has the default \<open>None\<close>. The call
  \<open>board.brightness(*args)\<close>: \<open>brightness\<close> has no default, so a call without an
  argument is a TypeError (missing required positional argument).\<close>

fun call_blink_rate :: "pyval list \<Rightarrow> pyval board_op" where
  "call_blink_rate [] s = TRELLIS_blink_rate PyNone s"
| "call_blink_rate [rate] s = TRELLIS_blink_rate rate s"
| "call_blink_rate _ s = Inl TypeError"

fun call_brightness :: "pyval list \<Rightarrow> pyval board_op" where
  "call_brightness [brightness] s = TRELLIS_brightness brightness s"
| "call_brightness _ s = Inl TypeError"

definition TRELLIS_show :: "unit board_op" where
  "TRELLIS_show s = Inr ((), s\<lparr>i2c_written := i2c_written s @ [led_buffer s]\<rparr>)"

subsection \<open>LEDs\<close>

text \<open>The chained comparison \<open>0 < x > 15\<close> is \<open>0 < x and x > 15\<close>. In \<open>~mask >> 8\<close> the
  unary operator binds tighter than the shift, and in \<open>a | b << 8\<close> the shift binds
  tighter than \<open>|\<close>. The shift count \<open>ledLUT[x] & 0x0f\<close> is never negative.\<close>

definition led_range_msg :: "exc_arg list" where
  "led_range_msg = [Str ''LED number must be between 0-15 (pyhsical LED - 1)'']"

definition TRELLIS_led_on :: "int \<Rightarrow> pyval board_op" where
  "TRELLIS_led_on x s =
     (if 0 < x \<and> x > 15 then Inl (ValueError led_range_msg)
      else seq (getitem ledLUT x) (\<lambda>e.
        let led = drop_bit 4 e;
            mask = push_bit (nat (e AND 0x0f)) (1::int)
        in seq (ior_item (led_buffer s) ((led * 2) + 1) mask) (\<lambda>b1.
           seq (ior_item b1 ((led * 2) + 2) (drop_bit 8 mask)) (\<lambda>b2.
             Inr (PyNone, s\<lparr>led_buffer := b2\<rparr>)))))"

definition TRELLIS_led_off :: "int \<Rightarrow> pyval board_op" where
  "TRELLIS_led_off x s =
     (if 0 < x \<and> x > 15 then Inl (ValueError led_range_msg)
      else seq (getitem ledLUT x) (\<lambda>e.
        let led = drop_bit 4 e;
            mask = push_bit (nat (e AND 0x0f)) (1::int)
        in seq (iand_item (led_buffer s) ((led * 2) + 1) (NOT mask)) (\<lambda>b1.
           seq (iand_item b1 ((led * 2) + 2) (drop_bit 8 (NOT mask))) (\<lambda>b2.
             Inr (PyNone, s\<lparr>led_buffer := b2\<rparr>)))))"

definition TRELLIS_led_status :: "int \<Rightarrow> pyval board_op" where
  "TRELLIS_led_status x s =
     (if 1 < x \<and> x > 16 then Inl (ValueError led_range_msg)
      else seq (getitem ledLUT x) (\<lambda>e.
        let led = drop_bit 4 e;
            mask = push_bit (nat (e AND 0x0f)) (1::int)
        in seq (getitem (led_buffer s) ((led * 2) + 1)) (\<lambda>lo.
           seq (getitem (led_buffer s) ((led * 2) + 2)) (\<lambda>hi.
             Inr (PyBool (((lo OR push_bit 8 hi) AND mask) > 0), s)))))"

text \<open>\<open>fill\<close>: the loop \<open>for i in range(16): self._led_buffer[i+1] = fill\<close>.\<close>

fun fill_loop :: "int list \<Rightarrow> int \<Rightarrow> int list \<Rightarrow> error + int list" where
  "fill_loop [] v b = Inr b"
| "fill_loop (i # is) v b = seq (bytearray_setitem b (i + 1) v) (fill_loop is v)"

definition TRELLIS_fill :: "pyval \<Rightarrow> pyval board_op" where
  "TRELLIS_fill color s =
     (let fill = (if truthy color then 0xff else 0x00)
      in seq (fill_loop (map int [0..<16]) fill (led_buffer s)) (\<lambda>b.
           Inr (PyNone, s\<lparr>led_buffer := b\<rparr>)))"

subsection \<open>Buttons\<close>

text \<open>\<open>read_buttons\<close>: the slice assignment copies the current scan into
  \<open>_last_buttons\<close>, the key-read command is written, and \<open>readinto\<close> overwrites
  \<open>_buttons_buffer\<close> with the bytes \<open>raw\<close> that the device delivers.\<close>

definition TRELLIS_read_buttons :: "int list \<Rightarrow> pyval board_op" where
  "TRELLIS_read_buttons raw s =
     (let s1 = s\<lparr>last_buttons := buttons_buffer s\<rparr>
      in seq (write_cmd HT16K33_KEY_READ_CMD s1) (\<lambda>s2.
           let s3 = s2\<lparr>buttons_buffer := raw\<rparr>
           in Inr (PyBool (last_buttons s3 \<noteq> buttons_buffer s3), s3)))"

definition is_pressed :: "int \<Rightarrow> TRELLIS \<Rightarrow> error + pyval" where
  "is_pressed button s =
     (if button > 15 then Inr PyNone
      else seq (getitem buttonLUT button) (\<lambda>e.
        let mask = push_bit (nat (e AND 0x0f)) (1::int)
        in seq (getitem (buttons_buffer s) (drop_bit 4 e)) (\<lambda>v. Inr (PyInt (v AND mask)))))"

definition was_pressed :: "int \<Rightarrow> TRELLIS \<Rightarrow> error + pyval" where
  "was_pressed button s =
     (if button > 15 then Inr PyNone
      else seq (getitem buttonLUT button) (\<lambda>e.
        let mask = push_bit (nat (e AND 0x0f)) (1::int)
        in seq (getitem (last_buttons s) (drop_bit 4 e)) (\<lambda>v. Inr (PyInt (v AND mask)))))"

definition button_range_msg :: "exc_arg list" where
  "button_range_msg = [Str ''Button must be between 0-15 (pyhsical button - 1)'']"

definition TRELLIS_just_pressed :: "int \<Rightarrow> pyval board_op" where
  "TRELLIS_just_pressed button s =
     (if button > 15 then Inl (ValueError button_range_msg)
      else seq (is_pressed button s) (\<lambda>a.
           seq (was_pressed button s) (\<lambda>b.
           seq (py_invert b) (\<lambda>nb.
           seq (py_and a nb) (\<lambda>r. Inr (r, s))))))"

definition TRELLIS_just_released :: "int \<Rightarrow> pyval board_op" where
  "TRELLIS_just_released button s =
     (if button > 15 then Inl (ValueError button_range_msg)
      else seq (is_pressed button s) (\<lambda>a.
           seq (py_invert a) (\<lambda>na.
           seq (was_pressed button s) (\<lambda>b.
           seq (py_and na b) (\<lambda>r. Inr (r, s))))))"

subsection \<open>Construction\<close>

definition TRELLIS_new :: TRELLIS where
  "TRELLIS_new = \<lparr>temp = replicate 1 0, led_buffer = replicate 17 0,
     buttons_buffer = replicate 6 0, last_buttons = replicate 6 0,
     blink_rate_attr = None, brightness_attr = None, i2c_written = []\<rparr>"

definition TRELLIS_init :: "error + TRELLIS" where
  "TRELLIS_init =
     seq (TRELLIS_fill (PyInt 0) TRELLIS_new) (\<lambda>(_, s1).
     seq (write_cmd HT16K33_OSCILATOR_ON s1) (\<lambda>s2.
     seq (TRELLIS_blink_rate (PyInt 0) s2) (\<lambda>(_, s3).
     seq (TRELLIS_brightness (PyInt 15) s3) (\<lambda>(_, s4). Inr s4))))"

section \<open>trellis\_set.py: a set of boards\<close>

text \<open>
  The aggregator holds references to board objects that it shares with its caller. A
  reference is an address (\<open>nat\<close>), the objects live in a store, and \<open>in\<close> / \<open>not in\<close>
  on a list of boards compares references (the class defines no \<open>__eq__\<close>).
\<close>

type_synonym store = "nat \<Rightarrow> TRELLIS"

record MATRIX =
  matrices :: "nat list"

definition on_board :: "nat \<Rightarrow> 'a board_op \<Rightarrow> store \<Rightarrow> error + ('a \<times> store)" where
  "on_board m f h = seq (f (h m)) (\<lambda>(r, s). Inr (r, h(m := s)))"

text \<open>\<open>__init__(self, *matrices)\<close>. The arguments may be any objects; \<open>qualname\<close> gives,
  for each, what the lookup \<open>matrix.__qualname__\<close> finds: \<open>None\<close> when the object has no
  such attribute, which raises AttributeError. For a board in the store that is
  \<open>TRELLIS_qualname\<close>. The result is the new object and the references that the \<open>else\<close>
  branch printed.\<close>

fun init_loop :: "(nat \<Rightarrow> string option) \<Rightarrow> nat list \<Rightarrow> nat list \<Rightarrow> nat list \<Rightarrow> error + (nat list \<times> nat list)" where
  "init_loop qualname [] acc out = Inr (acc, out)"
| "init_loop qualname (matrix # rest) acc out =
     (case qualname matrix of
        None \<Rightarrow> Inl AttributeError
      | Some q \<Rightarrow>
          if q \<noteq> ''TRELLIS''
          then Inl (ValueError [Str ''Only Trellis objects can be used with a MATRIX.'',
                                Obj matrix, Str ''is not a Trellis object.''])
          else if matrix \<notin> set acc then init_loop qualname rest (acc @ [matrix]) out
          else init_loop qualname rest acc (out @ [matrix]))"

definition MATRIX_init :: "(nat \<Rightarrow> string option) \<Rightarrow> nat list \<Rightarrow> error + (MATRIX \<times> nat list)" where
  "MATRIX_init qualname ms =
     (if ms = [] then Inl (ValueError [Str ''You must include at least one Trellis object.''])
      else if length ms > 8
      then Inl (ValueError [Str ''A maximum of 8 Trellis objects can be used. You'',
                            Str ''have attempted to use:'', Num (int (length ms))])
      else seq (init_loop qualname ms [] []) (\<lambda>(acc, out). Inr (\<lparr>matrices = acc\<rparr>, out)))"

text \<open>\<open>_get_matrix\<close>. Past the guard \<open>0 \<le> position \<le> 16 * len\<close>, so the float quotient
  \<open>position / 16\<close> is exact and \<open>int\<close> of it is \<open>position div 16\<close>. \<open>(None, None)\<close> is
  the result \<open>None\<close> here.\<close>

definition get_matrix :: "int \<Rightarrow> MATRIX \<Rightarrow> error + (nat \<times> int) option" where
  "get_matrix position self =
     (if position > 16 * int (length (matrices self)) \<or> position < 0 then Inr None
      else let matrix = position div 16;
               offset = position mod 16
           in seq (getitem (matrices self) matrix) (\<lambda>m. Inr (Some (m, offset))))"

text \<open>The per-LED methods. Without \<open>*matrices\<close> the position is resolved; with them the
  loop \<open>for matrix in matrices: return matrix.led_on(x)\<close> returns inside its first
  iteration.\<close>

fun first_target :: "(int \<Rightarrow> pyval board_op) \<Rightarrow> int \<Rightarrow> nat list \<Rightarrow> store \<Rightarrow> error + (pyval \<times> store)" where
  "first_target f x [] h = Inr (PyNone, h)"
| "first_target f x (matrix # rest) h = on_board matrix (f x) h"

definition per_led :: "(int \<Rightarrow> pyval board_op) \<Rightarrow> int \<Rightarrow> nat list \<Rightarrow> MATRIX \<Rightarrow> store \<Rightarrow> error + (pyval \<times> store)" where
  "per_led f x targets self h =
     (if targets = []
      then seq (get_matrix x self) (\<lambda>r.
             case r of None \<Rightarrow> Inr (PyBool False, h)
                     | Some (matrix, led) \<Rightarrow> on_board matrix (f led) h)
      else first_target f x targets h)"

definition MATRIX_led_on :: "int \<Rightarrow> nat list \<Rightarrow> MATRIX \<Rightarrow> store \<Rightarrow> error + (pyval \<times> store)" where
  "MATRIX_led_on = per_led TRELLIS_led_on"

definition MATRIX_led_off :: "int \<Rightarrow> nat list \<Rightarrow> MATRIX \<Rightarrow> store \<Rightarrow> error + (pyval \<times> store)" where
  "MATRIX_led_off = per_led TRELLIS_led_off"

definition MATRIX_led_status :: "int \<Rightarrow> nat list \<Rightarrow> MATRIX \<Rightarrow> store \<Rightarrow> error + (pyval \<times> store)" where
  "MATRIX_led_status = per_led TRELLIS_led_status"

text \<open>\<open>fill\<close> with explicit boards, for comparison: its loop has no \<open>return\<close>. (When
  \<open>matrices\<close> is empty the second loop does nothing.)\<close>

fun fill_each :: "pyval \<Rightarrow> nat list \<Rightarrow> store \<Rightarrow> error + store" where
  "fill_each color [] h = Inr h"
| "fill_each color (matrix # rest) h =
     seq (on_board matrix (TRELLIS_fill color) h) (\<lambda>(_, h1). fill_each color rest h1)"

definition MATRIX_fill :: "pyval \<Rightarrow> nat list \<Rightarrow> MATRIX \<Rightarrow> store \<Rightarrow> error + (pyval \<times> store)" where
  "MATRIX_fill color targets self h =
     seq (if targets = [] then fill_each color (matrices self) h else Inr h) (\<lambda>h1.
     seq (fill_each color targets h1) (\<lambda>h2. Inr (PyNone, h2)))"

text \<open>\<open>read_buttons\<close>: one scan per board, in order; \<open>raws\<close> are the frames the devices
  deliver, one per scan, and \<open>read_results |= ...\<close> accumulates. A scan for which no
  frame is left is a failed bus read (OSError).\<close>

fun scan_each :: "nat list \<Rightarrow> int list list \<Rightarrow> bool \<Rightarrow> store \<Rightarrow> error + (bool \<times> store)" where
  "scan_each [] raws read_results h = Inr (read_results, h)"
| "scan_each (matrix # rest) [] read_results h = Inl OSError"
| "scan_each (matrix # rest) (raw # raws) read_results h =
     seq (on_board matrix (TRELLIS_read_buttons raw) h) (\<lambda>(r, h1).
       scan_each rest raws (read_results \<or> truthy r) h1)"

definition MATRIX_read_buttons :: "int list list \<Rightarrow> nat list \<Rightarrow> MATRIX \<Rightarrow> store \<Rightarrow> error + (pyval \<times> store)" where
  "MATRIX_read_buttons raws targets self h =
     seq (scan_each (if targets = [] then matrices self else targets) raws False h)
       (\<lambda>(r, h1). Inr (PyBool r, h1))"

section \<open>Notions used in the statements\<close>

text \<open>The scan bit of button \<open>b\<close> in a 6-byte scan: the button table gives the byte
  (high nibble) and the bit within it (low nibble). \<open>scan_mask\<close> is that bit as a
  number.\<close>

definition scan_bit :: "int list \<Rightarrow> int \<Rightarrow> bool" where
  "scan_bit buf b =
     (let e = buttonLUT ! nat b in bit (buf ! nat (drop_bit 4 e)) (nat (e AND 0x0f)))"

definition scan_mask :: "int \<Rightarrow> int" where
  "scan_mask b = 2 ^ nat ((buttonLUT ! nat b) AND 0x0f)"

text \<open>A call returned, and what it returned is true in a condition.\<close>

definition returns_truthy :: "error + (pyval \<times> 'a) \<Rightarrow> bool" where
  "returns_truthy r = (case r of Inl _ \<Rightarrow> False | Inr (v, _) \<Rightarrow> truthy v)"

text \<open>The board that \<open>TRELLIS(i2c)\<close> hands to its caller: the attributes after
  \<open>__init__\<close> has run (see \<open>TRELLIS_init_constructed\<close>).\<close>

definition constructed :: TRELLIS where
  "constructed = TRELLIS_new\<lparr>temp := [0xEF], blink_rate_attr := Some 0,
     brightness_attr := Some 15, i2c_written := [[0x21], [0x81], [0xEF]]\<rparr>"

text \<open>A scan of the board reports a change.\<close>

definition scan_changed :: "int list \<Rightarrow> TRELLIS \<Rightarrow> bool" where
  "scan_changed raw s = returns_truthy (TRELLIS_read_buttons raw s)"

text \<open>The frame buffer as the controller reads it: bytes \<open>2p + 1\<close> and \<open>2p + 2\<close> are the low and
  high byte of the 16-bit word of register pair \<open>p\<close>; the LED table gives, for LED \<open>x\<close>, its
  pair (high nibble) and its bit in that word (low nibble). \<open>frame_ok\<close>: the buffer is a
  bytearray of 17 elements.\<close>

definition led_pair :: "int \<Rightarrow> nat" where
  "led_pair x = nat (drop_bit 4 (ledLUT ! nat x))"

definition led_offset :: "int \<Rightarrow> nat" where
  "led_offset x = nat ((ledLUT ! nat x) AND 0x0f)"

definition pair_word :: "int list \<Rightarrow> nat \<Rightarrow> int" where
  "pair_word buf p = buf ! (2 * p + 1) OR push_bit 8 (buf ! (2 * p + 2))"

definition led_bit :: "int list \<Rightarrow> int \<Rightarrow> bool" where
  "led_bit buf x = bit (pair_word buf (led_pair x)) (led_offset x)"

definition frame_ok :: "int list \<Rightarrow> bool" where
  "frame_ok buf = (length buf = 17 \<and> list_all (\<lambda>v. 0 \<le> v \<and> v \<le> 255) buf)"

section \<open>Evaluation lemmas\<close>

lemmas py_defs = getitem_def bytearray_setitem_def ior_item_def iand_item_def seq_def

lemmas led_defs = TRELLIS_led_on_def TRELLIS_led_off_def TRELLIS_led_status_def ledLUT_def
  led_range_msg_def

lemma seq_Inr: "seq (Inr v) f = f v" and seq_Inl: "seq (Inl e) f = Inl e"
  by (simp_all add: seq_def)

lemma and_one_bit: "(x::int) AND 2 ^ n = (if bit x n then 2 ^ n else 0)"
  by (rule bit_eqI) (auto simp: bit_simps)

lemma and_not_one_bit: "(if c then (2::int) ^ n else 0) AND NOT (if p then 2 ^ n else 0) = (if c \<and> \<not> p then 2 ^ n else 0)"
  by (rule bit_eqI) (auto simp: bit_simps)

lemma not_and_one_bit: "NOT (if c then (2::int) ^ n else 0) AND (if p then 2 ^ n else 0) = (if \<not> c \<and> p then 2 ^ n else 0)"
  by (rule bit_eqI) (auto simp: bit_simps)

lemma range16: "map int [0..<16] = [0, 1, 2, 3, 4, 5, 6, 7, 8, 9, 10, 11, 12, 13, 14, 15]"
  by code_simp

lemma index_cases: "0 \<le> (i::int) \<Longrightarrow> i \<le> 15 \<Longrightarrow> i \<in> {0, 1, 2, 3, 4, 5, 6, 7, 8, 9, 10, 11, 12, 13, 14, 15}"
  by (simp only: insert_iff empty_iff) presburger

lemma getitem_nat: "k < length xs \<Longrightarrow> getitem xs (int k) = Inr (xs ! k)"
  by (simp add: getitem_def)

lemma setitem_nat:
  "k < length b \<Longrightarrow> 0 \<le> v \<Longrightarrow> v \<le> 255 \<Longrightarrow> bytearray_setitem b (int k) v = Inr (b[k := v])"
  by (simp add: bytearray_setitem_def)

lemma setitem_refused:
  "255 < v \<Longrightarrow> bytearray_setitem b i v
     = Inl (ValueError [Str ''byte must be in range(0, 256)'', Num v])"
  by (simp add: bytearray_setitem_def)

lemma iand_item_nat:
  "k < length b \<Longrightarrow> 0 \<le> b ! k AND m \<Longrightarrow> b ! k AND m \<le> 255 \<Longrightarrow>
     iand_item b (int k) m = Inr (b[k := b ! k AND m])"
  by (simp add: iand_item_def getitem_nat setitem_nat seq_def)

lemma ior_item_nat:
  "k < length b \<Longrightarrow> 0 \<le> b ! k OR m \<Longrightarrow> b ! k OR m \<le> 255 \<Longrightarrow>
     ior_item b (int k) m = Inr (b[k := b ! k OR m])"
  by (simp add: ior_item_def getitem_nat setitem_nat seq_def)

lemma ior_item_refused:
  "k < length b \<Longrightarrow> 255 < b ! k OR m \<Longrightarrow>
     ior_item b (int k) m = Inl (ValueError [Str ''byte must be in range(0, 256)'', Num (b ! k OR m)])"
  by (simp add: ior_item_def getitem_nat setitem_refused seq_def)

lemma pair_positions:
  "int p * 2 + 1 = int (2 * p + 1)" "int p * 2 + 2 = int (2 * p + 2)"
  by simp_all

lemma write_cmd_value:
  assumes "temp s \<noteq> []" and "0 \<le> byte" and "byte \<le> 255"
  shows "write_cmd byte s
           = Inr (s\<lparr>temp := (temp s)[0 := byte],
                    i2c_written := i2c_written s @ [(temp s)[0 := byte]]\<rparr>)"
  using assms by (simp add: write_cmd_def bytearray_setitem_def seq_Inr)

lemma or_byte:
  assumes "0 \<le> a" "a < 2 ^ 8" "0 \<le> t" "t < 2 ^ 8"
  shows "0 \<le> a OR t" and "a OR t \<le> (255::int)"
proof -
  have "a OR t < 2 ^ 8"
    using assms by (intro OR_upper)
  then show "a OR t \<le> 255"
    by simp
  show "0 \<le> a OR t"
    using assms by simp
qed

lemma length17:
  assumes "length (b::int list) = 17"
  obtains b0 b1 b2 b3 b4 b5 b6 b7 b8 b9 b10 b11 b12 b13 b14 b15 b16
  where "b = [b0, b1, b2, b3, b4, b5, b6, b7, b8, b9, b10, b11, b12, b13, b14, b15, b16]"
  using assms by (auto simp: length_Suc_conv eval_nat_numeral)

lemma fill_loop_17:
  assumes "length b = 17" and "0 \<le> v" and "v \<le> 255"
  shows "fill_loop (map int [0..<16]) v b = Inr (b ! 0 # replicate 16 v)"
proof -
  from assms(1) obtain b0 b1 b2 b3 b4 b5 b6 b7 b8 b9 b10 b11 b12 b13 b14 b15 b16
    where b: "b = [b0, b1, b2, b3, b4, b5, b6, b7, b8, b9, b10, b11, b12, b13, b14, b15, b16]"
    by (rule length17)
  show ?thesis
    using assms(2,3) unfolding b range16
    by (simp add: seq_def bytearray_setitem_def eval_nat_numeral)
qed

lemma TRELLIS_init_constructed: "TRELLIS_init = Inr constructed"
  by (simp add: TRELLIS_init_def constructed_def TRELLIS_new_def TRELLIS_fill_def range16
      seq_def bytearray_setitem_def write_cmd_def HT16K33_OSCILATOR_ON_def
      HT16K33_BLINK_CMD_def HT16K33_BLINK_DISPLAYON_def HT16K33_CMD_BRIGHTNESS_def
      eval_nat_numeral)

section \<open>The lookup tables\<close>

text \<open>The sixteen entries of each table address sixteen different bits: no two LEDs share
  a bit of the frame buffer, no two buttons a bit of the scan.\<close>

lemma ledLUT_distinct: "distinct (map (\<lambda>e. (drop_bit 4 e, e AND 0x0f)) ledLUT)"
  by (simp add: ledLUT_def)

lemma buttonLUT_distinct: "distinct (map (\<lambda>e. (drop_bit 4 e, e AND 0x0f)) buttonLUT)"
  by (simp add: buttonLUT_def)

lemma led_entry:
  assumes "0 \<le> x" and "x \<le> 15"
  shows "getitem ledLUT x = Inr (ledLUT ! nat x)"
    and "drop_bit 4 (ledLUT ! nat x) = int (led_pair x)"
    and "(ledLUT ! nat x) AND 15 = int (led_offset x)"
    and "led_pair x < 4" and "led_offset x < 16"
  using index_cases [OF assms]
  by (auto simp: getitem_def ledLUT_def led_pair_def led_offset_def)

lemma led_positions_differ:
  assumes "0 \<le> i" "i \<le> 15" "0 \<le> j" "j \<le> 15" "i \<noteq> j"
  shows "led_pair i \<noteq> led_pair j \<or> led_offset i \<noteq> led_offset j"
  using index_cases [OF assms(1,2)] index_cases [OF assms(3,4)] assms(5)
  by (auto simp: ledLUT_def led_pair_def led_offset_def)

lemma led_offsets:
  "map led_offset [0, 1, 2, 3, 4, 5, 6, 7, 8, 9, 10, 11, 12, 13, 14, 15]
     = [10, 7, 5, 4, 8, 9, 3, 4, 6, 11, 1, 0, 14, 13, 12, 2]"
  by (simp add: led_offset_def ledLUT_def)

lemma buttonLUT_entries:
  "0 \<le> (b::int) \<Longrightarrow> b \<le> 15 \<Longrightarrow>
     getitem buttonLUT b = Inr (buttonLUT ! nat b) \<and>
     0 \<le> drop_bit 4 (buttonLUT ! nat b) \<and> drop_bit 4 (buttonLUT ! nat b) < 4"
  by (drule (1) index_cases) (auto simp: getitem_def buttonLUT_def)

section \<open>The LED methods on a well-formed frame buffer\<close>

text \<open>What the three methods compute for an index in \<open>0 .. 15\<close>. \<open>led_status\<close> reads the
  LED's bit. \<open>led_off\<close> clears it. \<open>led_on\<close> sets it when the bit lies in the low byte
  (offset below 8); when it lies in the high byte (offset 8 or more) the low byte is
  assigned a value of 256 or more and the assignment is refused.\<close>

lemma frame_byte:
  assumes "frame_ok buf" and "k < 17"
  shows "0 \<le> buf ! k" and "buf ! k \<le> 255"
  using assms by (auto simp: frame_ok_def list_all_length)

lemma frame_ok_update:
  "frame_ok buf \<Longrightarrow> 0 \<le> v \<Longrightarrow> v \<le> 255 \<Longrightarrow> frame_ok (buf[k := v])"
  by (auto simp: frame_ok_def list_all_iff dest!: set_update_subset_insert [THEN subsetD])

lemma led_status_value:
  assumes "length (led_buffer s) = 17" and "0 \<le> x" and "x \<le> 15"
  shows "TRELLIS_led_status x s = Inr (PyBool (led_bit (led_buffer s) x), s)"
proof -
  note e = led_entry [OF assms(2,3)]
  let ?k1 = "2 * led_pair x + 1" and ?k2 = "2 * led_pair x + 2"
  have k: "?k1 < length (led_buffer s)" "?k2 < length (led_buffer s)"
    using e(4) assms(1) by simp_all
  have test: "0 < w AND (2::int) ^ n \<longleftrightarrow> bit w n" for w n
    by (simp add: and_one_bit)
  have "TRELLIS_led_status x s =
          seq (getitem (led_buffer s) (int (led_pair x) * 2 + 1)) (\<lambda>lo.
          seq (getitem (led_buffer s) (int (led_pair x) * 2 + 2)) (\<lambda>hi.
            Inr (PyBool (((lo OR push_bit 8 hi) AND 2 ^ led_offset x) > 0), s)))"
    using assms(3) unfolding TRELLIS_led_status_def e(1)
    by (simp add: seq_Inr Let_def e(2,3))
  also have "\<dots> = Inr (PyBool (led_bit (led_buffer s) x), s)"
    unfolding pair_positions getitem_nat [OF k(1)] getitem_nat [OF k(2)] seq_Inr
    by (simp add: test led_bit_def pair_word_def)
  finally show ?thesis .
qed

lemma led_off_value:
  assumes "frame_ok (led_buffer s)" and "0 \<le> x" and "x \<le> 15"
  shows "TRELLIS_led_off x s
           = Inr (PyNone, s\<lparr>led_buffer := (led_buffer s)
                [2 * led_pair x + 1 :=
                   led_buffer s ! (2 * led_pair x + 1) AND NOT (2 ^ led_offset x),
                 2 * led_pair x + 2 :=
                   led_buffer s ! (2 * led_pair x + 2) AND drop_bit 8 (NOT (2 ^ led_offset x))]\<rparr>)"
proof -
  note e = led_entry [OF assms(2,3)]
  let ?b = "led_buffer s"
  let ?k1 = "2 * led_pair x + 1" and ?k2 = "2 * led_pair x + 2"
  let ?m1 = "NOT ((2::int) ^ led_offset x)" and ?m2 = "drop_bit 8 (NOT ((2::int) ^ led_offset x))"
  let ?b1 = "?b[?k1 := ?b ! ?k1 AND ?m1]"
  have len: "length ?b = 17"
    using assms(1) by (simp add: frame_ok_def)
  have k: "?k1 < 17" "?k2 < 17"
    using e(4) by simp_all
  have lo: "0 \<le> ?b ! ?k1 AND ?m1" "?b ! ?k1 AND ?m1 \<le> 255"
    using frame_byte [OF assms(1) k(1)] AND_upper1 [of "?b ! ?k1" ?m1]
    by simp_all
  have hi: "0 \<le> ?b ! ?k2 AND ?m2" "?b ! ?k2 AND ?m2 \<le> 255"
    using frame_byte [OF assms(1) k(2)] AND_upper1 [of "?b ! ?k2" ?m2]
    by simp_all
  have first: "iand_item ?b (int ?k1) ?m1 = Inr ?b1"
    using k(1) len lo by (intro iand_item_nat) simp_all
  have "iand_item ?b1 (int ?k2) ?m2 = Inr (?b1[?k2 := ?b1 ! ?k2 AND ?m2])"
    using k(2) len hi by (intro iand_item_nat) simp_all
  then have second: "iand_item ?b1 (int ?k2) ?m2 = Inr (?b1[?k2 := ?b ! ?k2 AND ?m2])"
    by simp
  have "TRELLIS_led_off x s =
          seq (iand_item ?b (int (led_pair x) * 2 + 1) ?m1) (\<lambda>b1.
          seq (iand_item b1 (int (led_pair x) * 2 + 2) ?m2) (\<lambda>b2.
            Inr (PyNone, s\<lparr>led_buffer := b2\<rparr>)))"
    using assms(3) unfolding TRELLIS_led_off_def e(1)
    by (simp add: seq_Inr Let_def e(2,3))
  also have "\<dots> = Inr (PyNone, s\<lparr>led_buffer := ?b1[?k2 := ?b ! ?k2 AND ?m2]\<rparr>)"
    unfolding pair_positions first seq_Inr second ..
  finally show ?thesis .
qed

lemma led_on_value:
  assumes "frame_ok (led_buffer s)" and "0 \<le> x" and "x \<le> 15" and "led_offset x < 8"
  shows "TRELLIS_led_on x s
           = Inr (PyNone, s\<lparr>led_buffer := (led_buffer s)
                [2 * led_pair x + 1 := led_buffer s ! (2 * led_pair x + 1) OR 2 ^ led_offset x]\<rparr>)"
proof -
  note e = led_entry [OF assms(2,3)]
  let ?b = "led_buffer s"
  let ?k1 = "2 * led_pair x + 1" and ?k2 = "2 * led_pair x + 2"
  let ?m = "(2::int) ^ led_offset x"
  let ?b1 = "?b[?k1 := ?b ! ?k1 OR ?m]"
  have len: "length ?b = 17"
    using assms(1) by (simp add: frame_ok_def)
  have k: "?k1 < 17" "?k2 < 17"
    using e(4) by simp_all
  have small: "?m < 2 ^ 8"
    using assms(4) by (intro power_strict_increasing) simp_all
  with frame_byte [OF assms(1) k(1)] have "?b ! ?k1 OR ?m < 2 ^ 8"
    by (intro OR_upper) simp_all
  with frame_byte [OF assms(1) k(1)] have lo: "0 \<le> ?b ! ?k1 OR ?m" "?b ! ?k1 OR ?m \<le> 255"
    by simp_all
  have high: "drop_bit 8 ?m = 0"
    using small by (simp add: drop_bit_eq_div)
  have first: "ior_item ?b (int ?k1) ?m = Inr ?b1"
    using k(1) len lo by (intro ior_item_nat) simp_all
  have "ior_item ?b1 (int ?k2) 0 = Inr (?b1[?k2 := ?b1 ! ?k2 OR 0])"
    using k(2) len frame_byte [OF assms(1) k(2)] by (intro ior_item_nat) simp_all
  moreover have "v OR 0 = v" for v :: int
    by simp
  ultimately have second: "ior_item ?b1 (int ?k2) 0 = Inr ?b1"
    by (simp only: list_update_id)
  have "TRELLIS_led_on x s =
          seq (ior_item ?b (int (led_pair x) * 2 + 1) ?m) (\<lambda>b1.
          seq (ior_item b1 (int (led_pair x) * 2 + 2) (drop_bit 8 ?m)) (\<lambda>b2.
            Inr (PyNone, s\<lparr>led_buffer := b2\<rparr>)))"
    using assms(3) unfolding TRELLIS_led_on_def e(1)
    by (simp add: seq_Inr Let_def e(2,3))
  also have "\<dots> = Inr (PyNone, s\<lparr>led_buffer := ?b1\<rparr>)"
    unfolding pair_positions high first seq_Inr second ..
  finally show ?thesis .
qed

lemma led_on_refused:
  assumes "frame_ok (led_buffer s)" and "0 \<le> x" and "x \<le> 15" and "8 \<le> led_offset x"
  shows "TRELLIS_led_on x s
           = Inl (ValueError [Str ''byte must be in range(0, 256)'',
                    Num (led_buffer s ! (2 * led_pair x + 1) OR 2 ^ led_offset x)])"
    and "255 < led_buffer s ! (2 * led_pair x + 1) OR 2 ^ led_offset x"
proof -
  note e = led_entry [OF assms(2,3)]
  let ?b = "led_buffer s"
  let ?k1 = "2 * led_pair x + 1"
  let ?m = "(2::int) ^ led_offset x"
  have len: "length ?b = 17"
    using assms(1) by (simp add: frame_ok_def)
  have k: "?k1 < 17"
    using e(4) by simp
  have "(2::int) ^ 8 \<le> ?m"
    using assms(4) by (intro power_increasing) simp_all
  moreover have "?m \<le> ?m OR ?b ! ?k1"
    using frame_byte [OF assms(1) k] by (intro or_greater_eq) simp
  ultimately show big: "255 < ?b ! ?k1 OR ?m"
    by (simp add: or.commute)
  have first: "ior_item ?b (int ?k1) ?m
                 = Inl (ValueError [Str ''byte must be in range(0, 256)'', Num (?b ! ?k1 OR ?m)])"
    using k len big by (intro ior_item_refused) simp_all
  have "TRELLIS_led_on x s =
          seq (ior_item ?b (int (led_pair x) * 2 + 1) ?m) (\<lambda>b1.
          seq (ior_item b1 (int (led_pair x) * 2 + 2) (drop_bit 8 ?m)) (\<lambda>b2.
            Inr (PyNone, s\<lparr>led_buffer := b2\<rparr>)))"
    using assms(3) unfolding TRELLIS_led_on_def e(1)
    by (simp add: seq_Inr Let_def e(2,3))
  also have "\<dots> = Inl (ValueError [Str ''byte must be in range(0, 256)'', Num (?b ! ?k1 OR ?m)])"
    unfolding pair_positions first seq_Inl ..
  finally show "TRELLIS_led_on x s
           = Inl (ValueError [Str ''byte must be in range(0, 256)'', Num (?b ! ?k1 OR ?m)])" .
qed

lemma pair_word_update:
  assumes "p < 4" and "q < 4" and "length buf = 17"
  shows "pair_word (buf[2 * p + 1 := a, 2 * p + 2 := b]) q
           = (if q = p then a OR push_bit 8 b else pair_word buf q)"
  using assms by (auto simp: pair_word_def nth_list_update)

lemma pair_word_update1:
  assumes "p < 4" and "q < 4" and "length buf = 17"
  shows "pair_word (buf[2 * p + 1 := a]) q
           = (if q = p then a OR push_bit 8 (buf ! (2 * p + 2)) else pair_word buf q)"
  using assms by (auto simp: pair_word_def nth_list_update)

lemma cleared_bit:
  "bit ((lo AND NOT (2 ^ n)) OR push_bit 8 (hi AND drop_bit 8 (NOT (2 ^ n)))) k
     \<longleftrightarrow> k \<noteq> n \<and> bit (lo OR push_bit 8 hi) k" for lo hi :: int
  by (auto simp: bit_simps)

lemma set_bit_low:
  "bit ((lo OR 2 ^ n) OR push_bit 8 hi) k \<longleftrightarrow> k = n \<or> bit (lo OR push_bit 8 hi) k"
  for lo hi :: int
  by (auto simp: bit_simps)

text \<open>After \<open>led_off(i)\<close>, \<open>led_status(i)\<close> is \<open>False\<close> and the status of every other LED
  is what it was; after a \<open>led_on(i)\<close> that addresses the low byte, \<open>led_status(i)\<close> is
  \<open>True\<close> and the status of every other LED is what it was.\<close>

lemma led_off_then_status:
  assumes "frame_ok (led_buffer s)" and "0 \<le> i" and "i \<le> 15" and "0 \<le> j" and "j \<le> 15"
  shows "\<exists>s1. TRELLIS_led_off i s = Inr (PyNone, s1) \<and> frame_ok (led_buffer s1)
            \<and> TRELLIS_led_status j s1 = Inr (PyBool (j \<noteq> i \<and> led_bit (led_buffer s) j), s1)"
proof -
  let ?b = "led_buffer s"
  let ?k1 = "2 * led_pair i + 1" and ?k2 = "2 * led_pair i + 2"
  let ?v1 = "?b ! ?k1 AND NOT (2 ^ led_offset i)"
  let ?v2 = "?b ! ?k2 AND drop_bit 8 (NOT (2 ^ led_offset i))"
  let ?s1 = "s\<lparr>led_buffer := ?b[?k1 := ?v1, ?k2 := ?v2]\<rparr>"
  note ei = led_entry [OF assms(2,3)] and ej = led_entry [OF assms(4,5)]
  have len: "length ?b = 17"
    using assms(1) by (simp add: frame_ok_def)
  have k: "?k1 < 17" "?k2 < 17"
    using ei(4) by simp_all
  have v: "0 \<le> ?v1" "?v1 \<le> 255" "0 \<le> ?v2" "?v2 \<le> 255"
    using frame_byte [OF assms(1) k(1)] frame_byte [OF assms(1) k(2)]
      AND_upper1 [of "?b ! ?k1" "NOT (2 ^ led_offset i)"]
      AND_upper1 [of "?b ! ?k2" "drop_bit 8 (NOT (2 ^ led_offset i))"]
    by simp_all
  have off: "TRELLIS_led_off i s = Inr (PyNone, ?s1)"
    by (rule led_off_value [OF assms(1,2,3)])
  have ok: "frame_ok (led_buffer ?s1)"
    using assms(1) v by (simp add: frame_ok_update)
  have pw: "pair_word (?b[?k1 := ?v1, ?k2 := ?v2]) q
              = (if q = led_pair i then ?v1 OR push_bit 8 ?v2 else pair_word ?b q)"
    if "q < 4" for q
    by (rule pair_word_update [OF ei(4) that len])
  have "led_bit (?b[?k1 := ?v1, ?k2 := ?v2]) j \<longleftrightarrow> j \<noteq> i \<and> led_bit ?b j"
  proof (cases "j = i")
    case True
    then show ?thesis
      unfolding led_bit_def pw [OF ej(4)] if_distrib [of "\<lambda>w. bit w _"] cleared_bit
      by simp
  next
    case False
    with led_positions_differ [OF assms(2,3,4,5)]
    have "led_pair i \<noteq> led_pair j \<or> led_offset i \<noteq> led_offset j"
      by simp
    then show ?thesis
      unfolding led_bit_def pw [OF ej(4)] if_distrib [of "\<lambda>w. bit w _"] cleared_bit
      using False by (auto simp: pair_word_def)
  qed
  moreover have "length (led_buffer ?s1) = 17" "led_buffer ?s1 = ?b[?k1 := ?v1, ?k2 := ?v2]"
    using len by simp_all
  ultimately have "TRELLIS_led_status j ?s1
                     = Inr (PyBool (j \<noteq> i \<and> led_bit ?b j), ?s1)"
    using led_status_value [OF _ assms(4,5), of ?s1] by (simp only:)
  with off ok show ?thesis
    by blast
qed

lemma led_on_then_status:
  assumes "frame_ok (led_buffer s)" and "0 \<le> i" and "i \<le> 15" and "0 \<le> j" and "j \<le> 15"
    and "led_offset i < 8"
  shows "\<exists>s1. TRELLIS_led_on i s = Inr (PyNone, s1) \<and> frame_ok (led_buffer s1)
            \<and> TRELLIS_led_status j s1 = Inr (PyBool (j = i \<or> led_bit (led_buffer s) j), s1)"
proof -
  let ?b = "led_buffer s"
  let ?k1 = "2 * led_pair i + 1"
  let ?v1 = "?b ! ?k1 OR 2 ^ led_offset i"
  let ?s1 = "s\<lparr>led_buffer := ?b[?k1 := ?v1]\<rparr>"
  note ei = led_entry [OF assms(2,3)] and ej = led_entry [OF assms(4,5)]
  have len: "length ?b = 17"
    using assms(1) by (simp add: frame_ok_def)
  have k: "?k1 < 17"
    using ei(4) by simp
  have "(2::int) ^ led_offset i < 2 ^ 8"
    using assms(6) by (intro power_strict_increasing) simp_all
  with frame_byte [OF assms(1) k] have "?v1 < 2 ^ 8"
    by (intro OR_upper) simp_all
  with frame_byte [OF assms(1) k] have v: "0 \<le> ?v1" "?v1 \<le> 255"
    by simp_all
  have on: "TRELLIS_led_on i s = Inr (PyNone, ?s1)"
    by (rule led_on_value [OF assms(1,2,3,6)])
  have ok: "frame_ok (led_buffer ?s1)"
    using assms(1) v by (simp add: frame_ok_update)
  have pw: "pair_word (?b[?k1 := ?v1]) q
              = (if q = led_pair i then ?v1 OR push_bit 8 (?b ! (2 * led_pair i + 2))
                 else pair_word ?b q)"
    if "q < 4" for q
    by (rule pair_word_update1 [OF ei(4) that len])
  have "led_bit (?b[?k1 := ?v1]) j \<longleftrightarrow> j = i \<or> led_bit ?b j"
  proof (cases "j = i")
    case True
    then show ?thesis
      unfolding led_bit_def pw [OF ej(4)] if_distrib [of "\<lambda>w. bit w _"] set_bit_low
      by simp
  next
    case False
    with led_positions_differ [OF assms(2,3,4,5)]
    have "led_pair i \<noteq> led_pair j \<or> led_offset i \<noteq> led_offset j"
      by simp
    then show ?thesis
      unfolding led_bit_def pw [OF ej(4)] if_distrib [of "\<lambda>w. bit w _"] set_bit_low
      using False by (auto simp: pair_word_def)
  qed
  moreover have "length (led_buffer ?s1) = 17" "led_buffer ?s1 = ?b[?k1 := ?v1]"
    using len by simp_all
  ultimately have "TRELLIS_led_status j ?s1
                     = Inr (PyBool (j = i \<or> led_bit ?b j), ?s1)"
    using led_status_value [OF _ assms(4,5), of ?s1] by (simp only:)
  with on ok show ?thesis
    by blast
qed

section \<open>The per-LED methods of the set, with explicit boards\<close>

text \<open>With explicit boards the index goes to the first board as it is given. \<open>fill\<close>,
  whose loop has no \<open>return\<close>, reaches every board it is given.\<close>

lemma explicit_board_raw_index:
  "MATRIX_led_on x (m # rest) self h = on_board m (TRELLIS_led_on x) h"
  "MATRIX_led_off x (m # rest) self h = on_board m (TRELLIS_led_off x) h"
  "MATRIX_led_status x (m # rest) self h = on_board m (TRELLIS_led_status x) h"
  by (simp_all add: MATRIX_led_on_def MATRIX_led_off_def MATRIX_led_status_def per_led_def)

lemma fill_each_reaches_all:
  assumes "\<forall>m\<in>set ms. length (led_buffer (h m)) = 17"
  shows "\<exists>h1. fill_each color ms h = Inr h1
           \<and> (\<forall>m\<in>set ms. led_buffer (h1 m)
                  = led_buffer (h m) ! 0 # replicate 16 (if truthy color then 0xff else 0x00))
           \<and> (\<forall>r. r \<notin> set ms \<longrightarrow> h1 r = h r)
           \<and> (\<forall>r. length (led_buffer (h1 r)) = length (led_buffer (h r))
                  \<and> led_buffer (h1 r) ! 0 = led_buffer (h r) ! 0)"
  using assms
proof (induction ms arbitrary: h)
  case Nil
  then show ?case by simp
next
  case (Cons m rest)
  let ?v = "if truthy color then 0xff else (0x00::int)"
  let ?s = "(h m)\<lparr>led_buffer := led_buffer (h m) ! 0 # replicate 16 ?v\<rparr>"
  have one: "TRELLIS_fill color (h m) = Inr (PyNone, ?s)"
    using Cons.prems fill_loop_17 [of "led_buffer (h m)" ?v]
    by (simp add: TRELLIS_fill_def seq_Inr)
  have step: "fill_each color (m # rest) h = fill_each color rest (h(m := ?s))"
    by (simp add: on_board_def one seq_Inr)
  have "\<forall>r\<in>set rest. length (led_buffer ((h(m := ?s)) r)) = 17"
    using Cons.prems by simp
  from Cons.IH [OF this] obtain h1 where h1: "fill_each color rest (h(m := ?s)) = Inr h1"
    and filled: "\<forall>r\<in>set rest. led_buffer (h1 r)
                  = led_buffer ((h(m := ?s)) r) ! 0 # replicate 16 ?v"
    and kept: "\<forall>r. r \<notin> set rest \<longrightarrow> h1 r = (h(m := ?s)) r"
    and shape: "\<forall>r. length (led_buffer (h1 r)) = length (led_buffer ((h(m := ?s)) r))
                  \<and> led_buffer (h1 r) ! 0 = led_buffer ((h(m := ?s)) r) ! 0"
    by blast
  have "led_buffer (h1 r) = led_buffer (h r) ! 0 # replicate 16 ?v" if "r \<in> set (m # rest)" for r
  proof (cases "r \<in> set rest")
    case True
    with filled show ?thesis by (cases "r = m") simp_all
  next
    case False
    with that kept show ?thesis by simp
  qed
  moreover have "h1 r = h r" if "r \<notin> set (m # rest)" for r
    using that kept by simp
  moreover have "length (led_buffer (h1 r)) = length (led_buffer (h r))
                  \<and> led_buffer (h1 r) ! 0 = led_buffer (h r) ! 0" for r
    using shape [rule_format, of r] Cons.prems by (cases "r = m") simp_all
  ultimately show ?case
    unfolding step h1 by blast
qed

lemma MATRIX_fill_explicit:
  assumes "targets \<noteq> []" and "\<forall>m\<in>set targets. length (led_buffer (h m)) = 17"
  shows "\<exists>h1. MATRIX_fill color targets self h = Inr (PyNone, h1)
           \<and> (\<forall>m\<in>set targets. led_buffer (h1 m)
                  = led_buffer (h m) ! 0 # replicate 16 (if truthy color then 0xff else 0x00))"
proof -
  from fill_each_reaches_all [OF assms(2), of color]
  obtain h1 where "fill_each color targets h = Inr h1"
    and "\<forall>m\<in>set targets. led_buffer (h1 m)
           = led_buffer (h m) ! 0 # replicate 16 (if truthy color then 0xff else 0x00)"
    by blast
  then show ?thesis
    using assms(1) by (simp add: MATRIX_fill_def seq_Inr)
qed

text \<open>
  Claim C1. A per-LED method of the set (\<open>led_on\<close>, \<open>led_off\<close>, \<open>led_status\<close>) that is
  given explicit boards is to act on every one of them, with the index as given. The
  index is passed as given, but the loop returns inside its first iteration: with the
  boards 0 and 1 as targets, \<open>led_on(1, ...)\<close> and \<open>led_off(1, ...)\<close> change the frame
  buffer of board 0 only, and \<open>led_status(1, ...)\<close> reports board 0 alone (here
  \<open>False\<close>, while LED 1 of board 1 is lit).
\<close>

theorem explicit_targets_first_board_only:
  "map_sum id (\<lambda>(r, h). (r, led_buffer (h 0), led_buffer (h 1)))
       (MATRIX_led_on 1 [0, 1] \<lparr>matrices = [0, 1]\<rparr> (\<lambda>_. constructed))
     = Inr (PyNone, [0, 0, 0, 0, 0, 0, 0, 128, 0, 0, 0, 0, 0, 0, 0, 0, 0],
                    [0, 0, 0, 0, 0, 0, 0, 0, 0, 0, 0, 0, 0, 0, 0, 0, 0])
   \<and> map_sum id (\<lambda>(r, h). (r, led_buffer (h 0), led_buffer (h 1)))
       (MATRIX_led_off 1 [0, 1] \<lparr>matrices = [0, 1]\<rparr>
          (\<lambda>_. constructed\<lparr>led_buffer := 0 # replicate 16 255\<rparr>))
     = Inr (PyNone,
         [0, 255, 255, 255, 255, 255, 255, 127, 255, 255, 255, 255, 255, 255, 255, 255, 255],
         [0, 255, 255, 255, 255, 255, 255, 255, 255, 255, 255, 255, 255, 255, 255, 255, 255])
   \<and> map_sum id fst
       (MATRIX_led_status 1 [0, 1] \<lparr>matrices = [0, 1]\<rparr>
          ((\<lambda>_. constructed)(1 := constructed\<lparr>led_buffer := 0 # replicate 16 255\<rparr>)))
     = Inr (PyBool False)"
  by (simp add: MATRIX_led_on_def MATRIX_led_off_def MATRIX_led_status_def per_led_def on_board_def
      led_defs py_defs constructed_def TRELLIS_new_def eval_nat_numeral)

section \<open>Resolution of a global position\<close>

text \<open>Inside \<open>0 .. 16 * N - 1\<close> a position resolves to board \<open>position div 16\<close> and index
  \<open>position mod 16\<close>; below 0 and above \<open>16 * N\<close> the three methods return \<open>False\<close> and
  change nothing.\<close>

lemma get_matrix_in_range:
  assumes "0 \<le> g" and "g < 16 * int (length (matrices self))"
  shows "get_matrix g self = Inr (Some (matrices self ! nat (g div 16), g mod 16))"
    and "0 \<le> g mod 16" and "g mod 16 < 16"
proof -
  have "0 \<le> g div 16" and "g div 16 < int (length (matrices self))"
    using assms by simp_all
  then have "getitem (matrices self) (g div 16) = Inr (matrices self ! nat (g div 16))"
    by (simp add: getitem_def)
  then show "get_matrix g self = Inr (Some (matrices self ! nat (g div 16), g mod 16))"
    using assms by (simp add: get_matrix_def seq_Inr Let_def)
qed simp_all

lemma get_matrix_outside:
  assumes "g < 0 \<or> 16 * int (length (matrices self)) < g"
  shows "get_matrix g self = Inr None"
  using assms by (auto simp: get_matrix_def)

lemma per_led_outside:
  assumes "g < 0 \<or> 16 * int (length (matrices self)) < g"
  shows "MATRIX_led_on g [] self h = Inr (PyBool False, h)"
    and "MATRIX_led_off g [] self h = Inr (PyBool False, h)"
    and "MATRIX_led_status g [] self h = Inr (PyBool False, h)"
  by (simp_all add: MATRIX_led_on_def MATRIX_led_off_def MATRIX_led_status_def per_led_def
      get_matrix_outside [OF assms] seq_Inr)

lemma per_led_in_range:
  assumes "0 \<le> g" and "g < 16 * int (length (matrices self))"
  shows "MATRIX_led_on g [] self h
           = on_board (matrices self ! nat (g div 16)) (TRELLIS_led_on (g mod 16)) h"
    and "MATRIX_led_off g [] self h
           = on_board (matrices self ! nat (g div 16)) (TRELLIS_led_off (g mod 16)) h"
    and "MATRIX_led_status g [] self h
           = on_board (matrices self ! nat (g div 16)) (TRELLIS_led_status (g mod 16)) h"
  by (simp_all add: MATRIX_led_on_def MATRIX_led_off_def MATRIX_led_status_def per_led_def
      get_matrix_in_range(1) [OF assms] seq_Inr)

text \<open>
  Claim C2. Without explicit boards, a position outside \<open>0 .. 16 * N - 1\<close> is to give
  the result "not found", without an exception. The guard of \<open>_get_matrix\<close> tests
  \<open>position > 16 * N\<close>, so the position \<open>16 * N\<close> itself passes it, and the lookup of
  board \<open>N\<close> in a list of \<open>N\<close> boards raises IndexError, in each of the three methods
  and for every set.
\<close>

theorem position_16n_raises_IndexError:
  "MATRIX_led_on (16 * int (length (matrices self))) [] self h = Inl IndexError
   \<and> MATRIX_led_off (16 * int (length (matrices self))) [] self h = Inl IndexError
   \<and> MATRIX_led_status (16 * int (length (matrices self))) [] self h = Inl IndexError"
  by (simp add: MATRIX_led_on_def MATRIX_led_off_def MATRIX_led_status_def per_led_def
      get_matrix_def getitem_def seq_def)

section \<open>Range checks of a single board\<close>

text \<open>Above 15 (above 16 for \<open>led_status\<close>) the methods raise the range error. From \<open>-16\<close>
  to \<open>-1\<close> an index behaves as the index 16 higher; below \<open>-16\<close> the table lookup
  raises IndexError.\<close>

lemma upper_range_checked:
  assumes "15 < x"
  shows "TRELLIS_led_on x s = Inl (ValueError led_range_msg)"
    and "TRELLIS_led_off x s = Inl (ValueError led_range_msg)"
    and "16 < x \<Longrightarrow> TRELLIS_led_status x s = Inl (ValueError led_range_msg)"
    and "TRELLIS_just_pressed x s = Inl (ValueError button_range_msg)"
    and "TRELLIS_just_released x s = Inl (ValueError button_range_msg)"
  using assms
  by (simp_all add: TRELLIS_led_on_def TRELLIS_led_off_def TRELLIS_led_status_def
      TRELLIS_just_pressed_def TRELLIS_just_released_def)

lemma negative_index_wraps:
  assumes "- 16 \<le> x" and "x < 0"
  shows "TRELLIS_led_on x s = TRELLIS_led_on (x + 16) s"
    and "TRELLIS_led_off x s = TRELLIS_led_off (x + 16) s"
    and "TRELLIS_led_status x s = TRELLIS_led_status (x + 16) s"
    and "TRELLIS_just_pressed x s = TRELLIS_just_pressed (x + 16) s"
    and "TRELLIS_just_released x s = TRELLIS_just_released (x + 16) s"
proof -
  have led: "getitem ledLUT x = getitem ledLUT (x + 16)"
    and button: "getitem buttonLUT x = getitem buttonLUT (x + 16)"
    using assms by (simp_all add: getitem_def ledLUT_def buttonLUT_def add.commute)
  show "TRELLIS_led_on x s = TRELLIS_led_on (x + 16) s"
    and "TRELLIS_led_off x s = TRELLIS_led_off (x + 16) s"
    and "TRELLIS_led_status x s = TRELLIS_led_status (x + 16) s"
    using assms by (simp_all add: TRELLIS_led_on_def TRELLIS_led_off_def TRELLIS_led_status_def led)
  show "TRELLIS_just_pressed x s = TRELLIS_just_pressed (x + 16) s"
    and "TRELLIS_just_released x s = TRELLIS_just_released (x + 16) s"
    using assms
    by (simp_all add: TRELLIS_just_pressed_def TRELLIS_just_released_def is_pressed_def
        was_pressed_def button)
qed

lemma below_table_IndexError:
  assumes "x < - 16"
  shows "TRELLIS_led_on x s = Inl IndexError" and "TRELLIS_led_off x s = Inl IndexError"
    and "TRELLIS_led_status x s = Inl IndexError"
    and "TRELLIS_just_pressed x s = Inl IndexError"
    and "TRELLIS_just_released x s = Inl IndexError"
  using assms
  by (simp_all add: TRELLIS_led_on_def TRELLIS_led_off_def TRELLIS_led_status_def
      TRELLIS_just_pressed_def TRELLIS_just_released_def is_pressed_def was_pressed_def
      getitem_def ledLUT_def buttonLUT_def seq_Inl)

text \<open>
  Claim C3. Each per-index method of a board is to raise the range error for every index
  outside \<open>0 .. 15\<close>. The checks only test the upper end: the index \<open>-1\<close> is accepted by
  all five methods and addresses the last table entry (\<open>led_on(-1)\<close> sets the bit of
  LED 15). \<open>led_status\<close> tests \<open>x > 16\<close>, so \<open>led_status(16)\<close> reaches the table and
  raises IndexError, as does any index below \<open>-16\<close>.
\<close>

theorem negative_index_accepted:
  "TRELLIS_led_on (- 1) constructed
     = Inr (PyNone, constructed\<lparr>led_buffer := [0, 4, 0, 0, 0, 0, 0, 0, 0, 0, 0, 0, 0, 0, 0, 0, 0]\<rparr>)
   \<and> TRELLIS_led_on 15 constructed
     = Inr (PyNone, constructed\<lparr>led_buffer := [0, 4, 0, 0, 0, 0, 0, 0, 0, 0, 0, 0, 0, 0, 0, 0, 0]\<rparr>)
   \<and> TRELLIS_led_off (- 1) constructed = Inr (PyNone, constructed)
   \<and> TRELLIS_led_status (- 1) constructed = Inr (PyBool False, constructed)
   \<and> TRELLIS_just_pressed (- 1) constructed = Inr (PyInt 0, constructed)
   \<and> TRELLIS_just_released (- 1) constructed = Inr (PyInt 0, constructed)
   \<and> TRELLIS_led_status 16 constructed = Inl IndexError
   \<and> TRELLIS_led_on (- 17) constructed = Inl IndexError"
  by (simp add: led_defs py_defs constructed_def TRELLIS_new_def TRELLIS_just_pressed_def TRELLIS_just_released_def
      is_pressed_def was_pressed_def buttonLUT_def eval_nat_numeral)

section \<open>Setting an LED and reading it back\<close>

text \<open>
  Claim C4. \<open>led_on(i)\<close> followed by \<open>led_status(i)\<close> is to give \<open>True\<close> for every
  \<open>i\<close> in \<open>0 .. 15\<close>. For \<open>i = 0\<close> the table entry is \<open>0x3A\<close>: the mask is \<open>1 << 10\<close>,
  the low byte of the pair is assigned \<open>0 | 1024\<close>, which a bytearray refuses, so on a
  board just constructed \<open>led_on(0)\<close> raises and \<open>led_status(0)\<close> stays \<open>False\<close>.
\<close>

theorem led_on_0_then_status_raises:
  "seq (TRELLIS_led_on 0 constructed) (\<lambda>(_, s). TRELLIS_led_status 0 s)
     = Inl (ValueError [Str ''byte must be in range(0, 256)'', Num 1024])
   \<and> TRELLIS_led_status 0 constructed = Inr (PyBool False, constructed)"
  by (simp add: led_defs py_defs constructed_def TRELLIS_new_def)

section \<open>Press and release edges\<close>

lemma is_pressed_value:
  assumes "length (buttons_buffer s) = 6" "0 \<le> b" "b \<le> 15"
  shows "is_pressed b s
           = Inr (PyInt (if scan_bit (buttons_buffer s) b then scan_mask b else 0))"
  using buttonLUT_entries [OF assms(2,3)] assms
  by (simp add: is_pressed_def seq_def getitem_def [of "buttons_buffer s"] Let_def
      and_one_bit scan_bit_def scan_mask_def)

lemma was_pressed_value:
  assumes "length (last_buttons s) = 6" "0 \<le> b" "b \<le> 15"
  shows "was_pressed b s
           = Inr (PyInt (if scan_bit (last_buttons s) b then scan_mask b else 0))"
  using buttonLUT_entries [OF assms(2,3)] assms
  by (simp add: was_pressed_def seq_def getitem_def [of "last_buttons s"] Let_def
      and_one_bit scan_bit_def scan_mask_def)

lemma scan_mask_pos: "scan_mask b \<noteq> 0"
  by (simp add: scan_mask_def)

text \<open>
  Claim C5. For all scans \<open>P\<close> (previous) and \<open>C\<close> (current) of six bytes and every
  button \<open>b\<close> in \<open>0 .. 15\<close>: \<open>just_pressed(b)\<close> returns the button's mask when its scan
  bit is set in \<open>C\<close> and clear in \<open>P\<close>, and 0 otherwise, so it is true in a condition
  exactly on a rising edge; \<open>just_released(b)\<close> likewise on a falling edge; and both
  are false when \<open>C\<close> and \<open>P\<close> agree on the bit.
\<close>

theorem edge_detection:
  assumes "length (buttons_buffer s) = 6" and "length (last_buttons s) = 6"
    and "0 \<le> b" and "b \<le> 15"
  shows "TRELLIS_just_pressed b s
           = Inr (PyInt (if scan_bit (buttons_buffer s) b \<and> \<not> scan_bit (last_buttons s) b
                         then scan_mask b else 0), s)
       \<and> TRELLIS_just_released b s
           = Inr (PyInt (if \<not> scan_bit (buttons_buffer s) b \<and> scan_bit (last_buttons s) b
                         then scan_mask b else 0), s)
       \<and> (returns_truthy (TRELLIS_just_pressed b s)
           \<longleftrightarrow> scan_bit (buttons_buffer s) b \<and> \<not> scan_bit (last_buttons s) b)
       \<and> (returns_truthy (TRELLIS_just_released b s)
           \<longleftrightarrow> \<not> scan_bit (buttons_buffer s) b \<and> scan_bit (last_buttons s) b)
       \<and> (scan_bit (buttons_buffer s) b = scan_bit (last_buttons s) b \<longrightarrow>
           \<not> returns_truthy (TRELLIS_just_pressed b s) \<and>
           \<not> returns_truthy (TRELLIS_just_released b s))"
proof -
  note vals = is_pressed_value [OF assms(1,3,4)] was_pressed_value [OF assms(2,3,4)]
  have jp: "TRELLIS_just_pressed b s
           = Inr (PyInt (if scan_bit (buttons_buffer s) b \<and> \<not> scan_bit (last_buttons s) b
                         then scan_mask b else 0), s)"
    using assms(4) unfolding TRELLIS_just_pressed_def vals scan_mask_def
    by (simp add: seq_def and_not_one_bit)
  have jr: "TRELLIS_just_released b s
           = Inr (PyInt (if \<not> scan_bit (buttons_buffer s) b \<and> scan_bit (last_buttons s) b
                         then scan_mask b else 0), s)"
    using assms(4) unfolding TRELLIS_just_released_def vals scan_mask_def
    by (simp add: seq_def not_and_one_bit)
  have p: "returns_truthy (TRELLIS_just_pressed b s)
           \<longleftrightarrow> scan_bit (buttons_buffer s) b \<and> \<not> scan_bit (last_buttons s) b"
    unfolding jp by (simp add: returns_truthy_def scan_mask_pos)
  have r: "returns_truthy (TRELLIS_just_released b s)
           \<longleftrightarrow> \<not> scan_bit (buttons_buffer s) b \<and> scan_bit (last_buttons s) b"
    unfolding jr by (simp add: returns_truthy_def scan_mask_pos)
  from jp jr p r show ?thesis by blast
qed

theorem edge_detection_witness:
  "TRELLIS_just_pressed 15 (constructed\<lparr>buttons_buffer := [0, 0, 0, 2, 0, 0]\<rparr>)
     = Inr (PyInt 2, constructed\<lparr>buttons_buffer := [0, 0, 0, 2, 0, 0]\<rparr>)
   \<and> TRELLIS_just_released 15 (constructed\<lparr>buttons_buffer := [0, 0, 0, 2, 0, 0]\<rparr>)
     = Inr (PyInt 0, constructed\<lparr>buttons_buffer := [0, 0, 0, 2, 0, 0]\<rparr>)
   \<and> returns_truthy (TRELLIS_just_pressed 15 (constructed\<lparr>buttons_buffer := [0, 0, 0, 2, 0, 0]\<rparr>))
   \<and> \<not> returns_truthy (TRELLIS_just_released 15 (constructed\<lparr>buttons_buffer := [0, 0, 0, 2, 0, 0]\<rparr>))"
  using edge_detection [of "constructed\<lparr>buttons_buffer := [0, 0, 0, 2, 0, 0]\<rparr>" 15]
  by (simp add: constructed_def TRELLIS_new_def scan_bit_def scan_mask_def buttonLUT_def returns_truthy_def)

section \<open>Scanning the buttons\<close>

lemma read_buttons_value:
  assumes "temp s \<noteq> []"
  shows "TRELLIS_read_buttons raw s
           = Inr (PyBool (buttons_buffer s \<noteq> raw),
               s\<lparr>temp := (temp s)[0 := HT16K33_KEY_READ_CMD],
                 last_buttons := buttons_buffer s,
                 buttons_buffer := raw,
                 i2c_written := i2c_written s @ [(temp s)[0 := HT16K33_KEY_READ_CMD]]\<rparr>)"
  using assms
  by (simp add: TRELLIS_read_buttons_def write_cmd_def bytearray_setitem_def seq_def
      HT16K33_KEY_READ_CMD_def)

lemma scan_changed_iff: "temp s \<noteq> [] \<Longrightarrow> scan_changed raw s \<longleftrightarrow> buttons_buffer s \<noteq> raw"
  by (simp add: scan_changed_def read_buttons_value returns_truthy_def)

lemma scan_each_or:
  assumes "distinct ms" and "length raws = length ms" and "\<forall>m\<in>set ms. temp (h m) \<noteq> []"
  shows "\<exists>h1. scan_each ms raws acc h
           = Inr (acc \<or> (\<exists>(m, raw)\<in>set (zip ms raws). scan_changed raw (h m)), h1)
         \<and> (\<forall>r. r \<notin> set ms \<longrightarrow> h1 r = h r)"
  using assms
proof (induction ms arbitrary: raws acc h)
  case Nil
  then show ?case by simp
next
  case (Cons m rest)
  from Cons.prems(2) obtain raw raws1 where raws: "raws = raw # raws1" "length raws1 = length rest"
    by (cases raws) auto
  let ?s = "snd (projr (TRELLIS_read_buttons raw (h m)))"
  let ?h = "h(m := ?s)"
  have tm: "temp (h m) \<noteq> []"
    using Cons.prems(3) by simp
  have step: "scan_each (m # rest) raws acc h
                = scan_each rest raws1 (acc \<or> scan_changed raw (h m)) ?h"
    by (simp add: raws on_board_def seq_def read_buttons_value [OF tm] scan_changed_iff [OF tm])
  have same: "?h r = h r" if "r \<in> set rest" for r
    using that Cons.prems(1) by auto
  have "distinct rest" and "length raws1 = length rest" and "\<forall>r\<in>set rest. temp (?h r) \<noteq> []"
    using Cons.prems raws same by simp_all
  from Cons.IH [OF this, of "acc \<or> scan_changed raw (h m)"]
  obtain h1 where h1: "scan_each rest raws1 (acc \<or> scan_changed raw (h m)) ?h
           = Inr ((acc \<or> scan_changed raw (h m))
                   \<or> (\<exists>(m, raw)\<in>set (zip rest raws1). scan_changed raw (?h m)), h1)"
      and keep: "\<forall>r. r \<notin> set rest \<longrightarrow> h1 r = ?h r"
    by blast
  have ne: "a \<noteq> m" if "(a, b) \<in> set (zip rest raws1)" for a b
    using that Cons.prems(1) by (auto dest: set_zip_leftD)
  have "(\<exists>(m, raw)\<in>set (zip rest raws1). scan_changed raw (?h m))
          \<longleftrightarrow> (\<exists>(m, raw)\<in>set (zip rest raws1). scan_changed raw (h m))"
    by (rule bex_cong [OF refl]) (use ne in auto)
  with h1 keep show ?case
    unfolding step by (auto simp: raws)
qed

text \<open>
  Claim C6, as stated, has two consecutive scans that read the same data both return
  \<open>False\<close>. On a board just constructed (scan buffer all zero) two scans that both read
  \<open>[1, 0, 0, 0, 0, 0]\<close> return \<open>True\<close> and then \<open>False\<close>.
\<close>

theorem first_of_two_equal_scans_counterexample:
  "map_sum id fst (TRELLIS_read_buttons [1, 0, 0, 0, 0, 0] constructed) = Inr (PyBool True)
   \<and> map_sum id fst
        (seq (TRELLIS_read_buttons [1, 0, 0, 0, 0, 0] constructed)
           (\<lambda>(_, s1). TRELLIS_read_buttons [1, 0, 0, 0, 0, 0] s1))
       = Inr (PyBool False)"
  by (simp add: read_buttons_value seq_def constructed_def TRELLIS_new_def eval_nat_numeral)

text \<open>
  Claim C6, amended. \<open>read_buttons\<close> copies the current scan into the previous one,
  reads the fresh bytes into the current one, and returns whether the two then differ,
  that is, whether the fresh bytes differ from the scan they replace; a second scan that
  reads the same bytes again returns \<open>False\<close>. For a set (of distinct boards, one frame
  per board), \<open>read_buttons()\<close> returns the disjunction of the results of the boards'
  own scans.
\<close>

theorem scan_result:
  assumes "temp s \<noteq> []"
    and "distinct (matrices self)" and "length raws = length (matrices self)"
    and "\<forall>m\<in>set (matrices self). temp (h m) \<noteq> []"
  shows "(\<exists>s1. TRELLIS_read_buttons raw s
                 = Inr (PyBool (last_buttons s1 \<noteq> buttons_buffer s1), s1)
              \<and> last_buttons s1 = buttons_buffer s \<and> buttons_buffer s1 = raw
              \<and> (\<exists>s2. TRELLIS_read_buttons raw s1 = Inr (PyBool False, s2)))
       \<and> (returns_truthy (TRELLIS_read_buttons raw s) \<longleftrightarrow> buttons_buffer s \<noteq> raw)
       \<and> (\<exists>h1. MATRIX_read_buttons raws [] self h
                 = Inr (PyBool (\<exists>(m, raw)\<in>set (zip (matrices self) raws).
                                  returns_truthy (TRELLIS_read_buttons raw (h m))), h1))"
proof (intro conjI)
  let ?s1 = "s\<lparr>temp := (temp s)[0 := HT16K33_KEY_READ_CMD],
                 last_buttons := buttons_buffer s,
                 buttons_buffer := raw,
                 i2c_written := i2c_written s @ [(temp s)[0 := HT16K33_KEY_READ_CMD]]\<rparr>"
  have "temp ?s1 \<noteq> []"
    using assms(1) by simp
  from read_buttons_value [OF this, of raw]
  have "\<exists>s2. TRELLIS_read_buttons raw ?s1 = Inr (PyBool False, s2)"
    by simp
  then show "\<exists>s1. TRELLIS_read_buttons raw s
                 = Inr (PyBool (last_buttons s1 \<noteq> buttons_buffer s1), s1)
              \<and> last_buttons s1 = buttons_buffer s \<and> buttons_buffer s1 = raw
              \<and> (\<exists>s2. TRELLIS_read_buttons raw s1 = Inr (PyBool False, s2))"
    unfolding read_buttons_value [OF assms(1), of raw]
    by (intro exI [of _ ?s1]) simp
  show "returns_truthy (TRELLIS_read_buttons raw s) \<longleftrightarrow> buttons_buffer s \<noteq> raw"
    using scan_changed_iff [OF assms(1)] by (simp add: scan_changed_def)
  from scan_each_or [OF assms(2,3,4), of False]
  show "\<exists>h1. MATRIX_read_buttons raws [] self h
                 = Inr (PyBool (\<exists>(m, raw)\<in>set (zip (matrices self) raws).
                                  returns_truthy (TRELLIS_read_buttons raw (h m))), h1)"
    by (auto simp: MATRIX_read_buttons_def seq_def scan_changed_def)
qed

theorem scan_result_witness:
  "returns_truthy (TRELLIS_read_buttons [1, 0, 0, 0, 0, 0] constructed)
   \<and> \<not> returns_truthy (TRELLIS_read_buttons [0, 0, 0, 0, 0, 0] constructed)
   \<and> map_sum id fst
        (MATRIX_read_buttons [[0, 0, 0, 0, 0, 0], [1, 0, 0, 0, 0, 0]] [] \<lparr>matrices = [0, 1]\<rparr>
           (\<lambda>_. constructed))
       = Inr (PyBool True)"
proof -
  have pre: "temp constructed \<noteq> []" "distinct (matrices \<lparr>matrices = [0, 1]\<rparr>)"
    "length [[0, 0, 0, 0, 0, 0], [1, 0, 0, 0, 0, 0::int]] = length (matrices \<lparr>matrices = [0, 1]\<rparr>)"
    "\<forall>m\<in>set (matrices \<lparr>matrices = [0, 1]\<rparr>). temp ((\<lambda>_. constructed) m) \<noteq> []"
    by (simp_all add: constructed_def)
  have buf: "buttons_buffer constructed = [0, 0, 0, 0, 0, 0]"
    by (simp add: constructed_def TRELLIS_new_def eval_nat_numeral)
  note a = scan_result [OF pre, of "[1, 0, 0, 0, 0, 0]"]
    and b = scan_result [OF pre, of "[0, 0, 0, 0, 0, 0]"]
  from a have 1: "returns_truthy (TRELLIS_read_buttons [1, 0, 0, 0, 0, 0] constructed)"
    by (simp add: buf)
  from b have 2: "\<not> returns_truthy (TRELLIS_read_buttons [0, 0, 0, 0, 0, 0] constructed)"
    by (simp add: buf)
  from a 1 2 have "map_sum id fst
        (MATRIX_read_buttons [[0, 0, 0, 0, 0, 0], [1, 0, 0, 0, 0, 0]] [] \<lparr>matrices = [0, 1]\<rparr>
           (\<lambda>_. constructed))
       = Inr (PyBool True)"
    by auto
  with 1 2 show ?thesis by blast
qed

section \<open>Construction of a set\<close>

text \<open>The two checks on the number of arguments come before the loop and hold for any
  objects.\<close>

lemma construction_counts:
  "MATRIX_init qualname []
     = Inl (ValueError [Str ''You must include at least one Trellis object.''])"
  "length ms > 8 \<Longrightarrow> MATRIX_init qualname ms
     = Inl (ValueError [Str ''A maximum of 8 Trellis objects can be used. You'',
                        Str ''have attempted to use:'', Num (int (length ms))])"
  by (auto simp: MATRIX_init_def)

text \<open>The loop itself, on objects whose \<open>__qualname__\<close> is found and is \<open>'TRELLIS'\<close>
  (the class object \<open>TRELLIS\<close> is one): it keeps the first occurrence of each, in the
  order given.\<close>

lemma remdups_later_copy:
  "m \<in> set ys \<Longrightarrow> remdups (xs @ m # ys) = remdups (xs @ ys)"
  by (induction xs) auto

lemma init_loop_first_occurrences:
  assumes "\<forall>m\<in>set ms. qualname m = Some ''TRELLIS''" and "distinct acc"
  shows "map_sum id fst (init_loop qualname ms acc out) = Inr (rev (remdups (rev (acc @ ms))))"
  using assms
proof (induction ms arbitrary: acc out)
  case Nil
  then show ?case by (simp add: distinct_remdups_id)
next
  case (Cons m rest)
  show ?case
  proof (cases "m \<in> set acc")
    case True
    have "map_sum id fst (init_loop qualname (m # rest) acc out)
            = map_sum id fst (init_loop qualname rest acc (out @ [m]))"
      using Cons.prems True by simp
    also have "\<dots> = Inr (rev (remdups (rev (acc @ rest))))"
      using Cons.prems by (intro Cons.IH) simp_all
    also have "remdups (rev (acc @ rest)) = remdups (rev (acc @ m # rest))"
      using True remdups_later_copy [of m "rev acc" "rev rest"] by simp
    finally show ?thesis .
  next
    case False
    have "map_sum id fst (init_loop qualname (m # rest) acc out)
            = map_sum id fst (init_loop qualname rest (acc @ [m]) out)"
      using Cons.prems False by simp
    also have "\<dots> = Inr (rev (remdups (rev ((acc @ [m]) @ rest))))"
      using Cons.prems False by (intro Cons.IH) simp_all
    also have "(acc @ [m]) @ rest = acc @ m # rest"
      by simp
    finally show ?thesis .
  qed
qed

lemma construction_first_occurrences:
  assumes "ms \<noteq> []" and "length ms \<le> 8" and "\<forall>m\<in>set ms. qualname m = Some ''TRELLIS''"
  shows "map_sum id (matrices \<circ> fst) (MATRIX_init qualname ms) = Inr (rev (remdups (rev ms)))"
proof -
  have "map_sum id fst (init_loop qualname ms [] []) = Inr (rev (remdups (rev ms)))"
    using init_loop_first_occurrences [OF assms(3), of "[]" "[]"] by simp
  then obtain out where "init_loop qualname ms [] [] = Inr (rev (remdups (rev ms)), out)"
    by (cases "init_loop qualname ms [] []") auto
  then show ?thesis
    using assms(1,2) by (simp add: MATRIX_init_def seq_Inr)
qed

text \<open>On boards the loop does not get that far: the lookup in its first iteration raises
  AttributeError, whatever the boards and however many (one to eight).\<close>

lemma construction_from_instances:
  assumes "ms \<noteq> []" and "length ms \<le> 8"
  shows "MATRIX_init (TRELLIS_qualname \<circ> h) ms = Inl AttributeError"
proof -
  from assms(1) obtain m rest where "ms = m # rest"
    by (cases ms) auto
  then show ?thesis
    using assms(2) by (simp add: MATRIX_init_def TRELLIS_qualname_def seq_Inl)
qed


section \<open>Filling the frame buffer\<close>

lemma filled_status:
  assumes "0 \<le> i" and "i \<le> 15"
  shows "TRELLIS_led_status i (s\<lparr>led_buffer := 0 # replicate 16 (if c then 255 else 0)\<rparr>)
           = Inr (PyBool c, s\<lparr>led_buffer := 0 # replicate 16 (if c then 255 else 0)\<rparr>)"
  using index_cases [OF assms]
  by (auto simp: TRELLIS_led_status_def ledLUT_def getitem_def seq_def eval_nat_numeral)

text \<open>
  Claim C8. On a frame buffer of 17 bytes whose byte 0 is zero, \<open>fill(color)\<close> sets
  bytes 1 to 16 to \<open>0xFF\<close> when \<open>color\<close> is true in a condition and to \<open>0x00\<close>
  otherwise, and byte 0 stays zero; \<open>led_status(i)\<close> after it is \<open>True\<close>,
  respectively \<open>False\<close>, for every \<open>i\<close> in \<open>0 .. 15\<close>.
\<close>

theorem fill_uniform:
  assumes "length (led_buffer s) = 17" and "led_buffer s ! 0 = 0"
  shows "TRELLIS_fill color s
           = Inr (PyNone, s\<lparr>led_buffer := 0 # replicate 16 (if truthy color then 0xff else 0x00)\<rparr>)
       \<and> (\<forall>i\<in>{0..15}. seq (TRELLIS_fill color s) (\<lambda>(_, s1). TRELLIS_led_status i s1)
             = Inr (PyBool (truthy color),
                 s\<lparr>led_buffer := 0 # replicate 16 (if truthy color then 0xff else 0x00)\<rparr>))"
proof -
  have f: "TRELLIS_fill color s
           = Inr (PyNone, s\<lparr>led_buffer := 0 # replicate 16 (if truthy color then 0xff else 0x00)\<rparr>)"
    using fill_loop_17 [OF assms(1), of "if truthy color then 0xff else 0x00"] assms(2)
    by (simp add: TRELLIS_fill_def seq_def)
  show ?thesis
    unfolding f using filled_status [of _ "truthy color" s]
    by (simp add: seq_def)
qed

theorem fill_uniform_witness:
  "TRELLIS_fill (PyInt 1) constructed
     = Inr (PyNone, constructed\<lparr>led_buffer := 0 # replicate 16 255\<rparr>)
   \<and> seq (TRELLIS_fill (PyInt 1) constructed) (\<lambda>(_, s1). TRELLIS_led_status 0 s1)
     = Inr (PyBool True, constructed\<lparr>led_buffer := 0 # replicate 16 255\<rparr>)
   \<and> seq (TRELLIS_fill (PyInt 0) constructed) (\<lambda>(_, s1). TRELLIS_led_status 9 s1)
     = Inr (PyBool False, constructed\<lparr>led_buffer := 0 # replicate 16 0\<rparr>)"
proof -
  have new: "length (led_buffer constructed) = 17" "led_buffer constructed ! 0 = 0"
    by (simp_all add: constructed_def TRELLIS_new_def)
  note lit = fill_uniform [OF new, of "PyInt 1"] and dark = fill_uniform [OF new, of "PyInt 0"]
  show ?thesis
    using conjunct1 [OF lit] conjunct2 [OF lit, THEN bspec, of 0]
      conjunct2 [OF dark, THEN bspec, of 9]
    by simp
qed

section \<open>Brightness and blink rate\<close>

text \<open>Both setters mask their argument, store it and write one command byte; the getter
  forms return the stored value and leave the board, and with it the transport, as it
  was.\<close>

lemma masked_rate: "0 \<le> push_bit 1 (r AND (0x03::int))" "push_bit 1 (r AND (0x03::int)) < 2 ^ 8"
proof -
  have "0 \<le> r AND 3" and "r AND 3 \<le> 3"
    by (simp_all add: AND_upper2)
  then show "0 \<le> push_bit 1 (r AND (0x03::int))" "push_bit 1 (r AND (0x03::int)) < 2 ^ 8"
    unfolding push_bit_eq_mult by simp_all
qed

lemma masked_brightness: "0 \<le> b AND (0x0F::int)" "b AND (0x0F::int) < 2 ^ 8"
  using AND_upper2 [of 15 b] by simp_all

lemma blink_rate_setter:
  assumes "temp s \<noteq> []"
  shows "\<exists>s1. call_blink_rate [PyInt r] s = Inr (PyNone, s1)
           \<and> blink_rate_attr s1 = Some (r AND 0x03)
           \<and> i2c_written s1 = i2c_written s
                @ [(temp s)[0 := HT16K33_BLINK_CMD OR HT16K33_BLINK_DISPLAYON
                                   OR push_bit 1 (r AND 0x03)]]"
proof -
  let ?cmd = "HT16K33_BLINK_CMD OR HT16K33_BLINK_DISPLAYON OR push_bit 1 (r AND 0x03)"
  let ?s = "s\<lparr>blink_rate_attr := Some (r AND 0x03)\<rparr>"
  have d: "0 \<le> HT16K33_BLINK_DISPLAYON OR push_bit 1 (r AND 0x03)"
    "HT16K33_BLINK_DISPLAYON OR push_bit 1 (r AND 0x03) < 2 ^ 8"
    using or_byte [OF _ _ masked_rate, of HT16K33_BLINK_DISPLAYON r]
    by (simp_all add: HT16K33_BLINK_DISPLAYON_def)
  have "0 \<le> ?cmd" and "?cmd \<le> 255"
    using or_byte [OF _ _ d, of HT16K33_BLINK_CMD]
    by (simp_all add: HT16K33_BLINK_CMD_def)
  moreover have "temp ?s \<noteq> []"
    using assms by simp
  ultimately have "write_cmd ?cmd ?s
      = Inr (?s\<lparr>temp := (temp ?s)[0 := ?cmd], i2c_written := i2c_written ?s @ [(temp ?s)[0 := ?cmd]]\<rparr>)"
    by (intro write_cmd_value)
  moreover have "call_blink_rate [PyInt r] s = seq (write_cmd ?cmd ?s) (\<lambda>s2. Inr (PyNone, s2))"
    by (simp only: call_blink_rate.simps TRELLIS_blink_rate.simps Let_def pyval.case)
  ultimately show ?thesis
    by (simp only: seq_Inr) simp
qed

lemma brightness_setter:
  assumes "temp s \<noteq> []"
  shows "\<exists>s1. call_brightness [PyInt b] s = Inr (PyNone, s1)
           \<and> brightness_attr s1 = Some (b AND 0x0F)
           \<and> i2c_written s1 = i2c_written s
                @ [(temp s)[0 := HT16K33_CMD_BRIGHTNESS OR (b AND 0x0F)]]"
proof -
  let ?cmd = "HT16K33_CMD_BRIGHTNESS OR (b AND 0x0F)"
  let ?s = "s\<lparr>brightness_attr := Some (b AND 0x0F)\<rparr>"
  have "0 \<le> ?cmd" and "?cmd \<le> 255"
    using or_byte [OF _ _ masked_brightness, of HT16K33_CMD_BRIGHTNESS b]
    by (simp_all add: HT16K33_CMD_BRIGHTNESS_def)
  moreover have "temp ?s \<noteq> []"
    using assms by simp
  ultimately have "write_cmd ?cmd ?s
      = Inr (?s\<lparr>temp := (temp ?s)[0 := ?cmd], i2c_written := i2c_written ?s @ [(temp ?s)[0 := ?cmd]]\<rparr>)"
    by (intro write_cmd_value)
  moreover have "call_brightness [PyInt b] s = seq (write_cmd ?cmd ?s) (\<lambda>s2. Inr (PyNone, s2))"
    by (simp only: call_brightness.simps TRELLIS_brightness.simps Let_def pyval.case)
  ultimately show ?thesis
    by (simp only: seq_Inr) simp
qed

lemma getters_without_io:
  "call_blink_rate [] s
     = Inr ((case blink_rate_attr s of None \<Rightarrow> PyNone | Some r \<Rightarrow> PyInt r), s)"
  "call_blink_rate [PyNone] s
     = Inr ((case blink_rate_attr s of None \<Rightarrow> PyNone | Some r \<Rightarrow> PyInt r), s)"
  "call_brightness [PyNone] s
     = Inr ((case brightness_attr s of None \<Rightarrow> PyNone | Some r \<Rightarrow> PyInt r), s)"
  by simp_all

text \<open>
  Claim C9. Both \<open>blink_rate\<close> and \<open>brightness\<close> are to have a getter form that is
  called without an argument. \<open>brightness\<close> declares its parameter without a default, so
  the call without an argument raises TypeError, whatever the state of the board.
\<close>

theorem brightness_without_argument_raises:
  "call_brightness [] s = Inl TypeError"
  by simp

section \<open>Values assigned to the frame buffer\<close>

text \<open>
  Claim C10. Every value that \<open>led_on\<close> assigns to an element of the frame buffer is to
  lie in \<open>0 .. 255\<close>. For the seven table entries with a bit offset of 8 or more (LEDs
  0, 4, 5, 9, 12, 13 and 14) the low byte is assigned the whole mask: on a board just constructed the
  values are 1024, 256, 512, 2048, 16384, 8192 and 4096, and each assignment is refused.
\<close>

theorem led_on_low_byte_values:
  "map (\<lambda>x. case TRELLIS_led_on x constructed of Inl e \<Rightarrow> Some e | Inr _ \<Rightarrow> None) [0, 4, 5, 9, 12, 13, 14]
     = map (\<lambda>v. Some (ValueError [Str ''byte must be in range(0, 256)'', Num v]))
         [1024, 256, 512, 2048, 16384, 8192, 4096]"
  by (simp add: led_defs py_defs constructed_def TRELLIS_new_def)

end
